theory Spec2Isabelle
  imports Complex_Main "HOL-Library.Sublist"
begin

section \<open>Python strings\<close>

text \<open>
  A Python \<open>str\<close> is modelled as a \<open>string\<close> whose characters are the code points
  below 256. \<open>isspace\<close> is the whitespace test that \<open>str.split()\<close> and
  \<open>str.strip()\<close> use, on that range: tab, line feed, vertical tab, form feed, carriage
  return, the four separators \<open>0x1C\<close> to \<open>0x1F\<close>, the space, the next-line control
  \<open>0x85\<close> and the no-break space \<open>0xA0\<close>.
\<close>

definition isspace :: "char \<Rightarrow> bool" where
  "isspace c = (c \<in> set [CHR 0x09, CHR 0x0A, CHR 0x0B, CHR 0x0C, CHR 0x0D,
                          CHR 0x1C, CHR 0x1D, CHR 0x1E, CHR 0x1F, CHR '' '',
                          CHR 0x85, CHR 0xA0])"

text \<open>
  \<open>s.split()\<close> with no separator: runs of whitespace separate the words, and no empty
  word is produced. \<open>split_from cur s\<close> scans \<open>s\<close> with the word being read in
  \<open>cur\<close>.
\<close>

fun split_from :: "string \<Rightarrow> string \<Rightarrow> string list" where
  "split_from cur [] = (if cur = [] then [] else [cur])"
| "split_from cur (c # cs) =
     (if isspace c then (if cur = [] then split_from [] cs else cur # split_from [] cs)
      else split_from (cur @ [c]) cs)"

definition str_split :: "string \<Rightarrow> string list" where
  "str_split s = split_from [] s"

text \<open>\<open>s.strip()\<close>: leading and trailing whitespace removed.\<close>

definition str_strip :: "string \<Rightarrow> string" where
  "str_strip s = rev (dropWhile isspace (rev (dropWhile isspace s)))"

text \<open>\<open>sep.join(xs)\<close>.\<close>

fun str_join :: "string \<Rightarrow> string list \<Rightarrow> string" where
  "str_join sep [] = []"
| "str_join sep [x] = x"
| "str_join sep (x # y # ys) = x @ sep @ str_join sep (y # ys)"

text \<open>
  The slice \<open>xs[:n]\<close>: the first \<open>n\<close> elements, and for a negative \<open>n\<close> all but
  the last \<open>-n\<close>.
\<close>

definition slice_to :: "int \<Rightarrow> 'a list \<Rightarrow> 'a list" where
  "slice_to n xs = (if 0 \<le> n then take (nat n) xs else take (length xs - nat (- n)) xs)"

text \<open>The test \<open>not text or not text.strip()\<close> of the source.\<close>

definition blank :: "string \<Rightarrow> bool" where
  "blank text = (text = [] \<or> str_strip text = [])"

text \<open>The number of whitespace-separated words of a string.\<close>

definition word_count :: "string \<Rightarrow> int" where
  "word_count s = int (length (str_split s))"

section \<open>Facts about the string functions\<close>

definition is_word :: "string \<Rightarrow> bool" where
  "is_word w = (w \<noteq> [] \<and> list_all (\<lambda>c. \<not> isspace c) w)"

lemma split_from_words:
  "list_all (\<lambda>c. \<not> isspace c) cur \<Longrightarrow> list_all is_word (split_from cur s)"
proof (induction s arbitrary: cur)
  case Nil
  then show ?case by (simp add: is_word_def)
next
  case (Cons c cs)
  then show ?case by (simp add: is_word_def)
qed

lemma str_split_words: "list_all is_word (str_split s)"
  by (simp add: str_split_def split_from_words)

lemma split_from_append_word:
  "list_all (\<lambda>c. \<not> isspace c) w \<Longrightarrow> split_from cur (w @ rest) = split_from (cur @ w) rest"
  by (induction w arbitrary: cur) simp_all

lemma isspace_space [simp]: "isspace CHR '' ''"
  by (simp add: isspace_def)

lemma not_isspace_dot [simp]: "\<not> isspace CHR ''.''"
  by (simp add: isspace_def)

lemma str_split_join:
  "list_all is_word ws \<Longrightarrow> str_split (str_join '' '' ws) = ws"
proof (induction "'' ''" ws rule: str_join.induct)
  case 1
  show ?case by (simp add: str_split_def)
next
  case (2 x)
  then have "split_from [] (x @ []) = split_from ([] @ x) []"
    by (intro split_from_append_word) (simp add: is_word_def)
  with 2 show ?case by (simp add: str_split_def is_word_def)
next
  case (3 x y ys)
  then have x: "x \<noteq> []" "list_all (\<lambda>c. \<not> isspace c) x" and rest: "list_all is_word (y # ys)"
    by (simp_all add: is_word_def)
  have "split_from [] (x @ ('' '' @ str_join '' '' (y # ys)))
        = split_from ([] @ x) ('' '' @ str_join '' '' (y # ys))"
    using x(2) by (rule split_from_append_word)
  also have "\<dots> = x # split_from [] (str_join '' '' (y # ys))"
    using x(1) by simp
  also have "\<dots> = x # y # ys"
    using 3 rest by (simp add: str_split_def)
  finally show ?case by (simp add: str_split_def)
qed

lemma str_join_snoc:
  "ws \<noteq> [] \<Longrightarrow> str_join sep ws @ t = str_join sep (butlast ws @ [last ws @ t])"
  by (induction sep ws rule: str_join.induct) (auto simp: neq_Nil_conv)

lemma is_word_dots: "is_word w \<Longrightarrow> is_word (w @ ''...'')"
  by (simp add: is_word_def)

lemma str_split_join_dots:
  assumes "list_all is_word ws" and "ws \<noteq> []"
  shows "str_split (str_join '' '' ws @ ''...'') = butlast ws @ [last ws @ ''...'']"
proof -
  have "list_all is_word (butlast ws @ [last ws])"
    using assms by simp
  then have "list_all is_word (butlast ws)" and "is_word (last ws)"
    by (simp_all del: append_butlast_last_id)
  then have "list_all is_word (butlast ws @ [last ws @ ''...''])"
    by (simp add: is_word_dots)
  then show ?thesis
    using assms(2) by (simp add: str_join_snoc str_split_join)
qed


lemma slice_to_take: "0 \<le> n \<Longrightarrow> slice_to n xs = take (nat n) xs"
  by (simp add: slice_to_def)

lemma str_split_truncated:
  assumes "list_all is_word words" and "1 \<le> word_limit" and "word_limit < int (length words)"
  shows "str_split (str_join '' '' (slice_to word_limit words) @ ''...'')
         = take (nat word_limit - 1) words @ [words ! (nat word_limit - 1) @ ''...'']"
proof -
  let ?n = "nat word_limit"
  let ?ws = "take ?n words"
  have n: "0 < ?n" "?n \<le> length words" using assms(2,3) by simp_all
  have ws: "?ws \<noteq> []" using n by auto
  have "list_all is_word ?ws"
    using assms(1) by (metis append_take_drop_id list_all_append)
  then have "str_split (str_join '' '' ?ws @ ''...'') = butlast ?ws @ [last ?ws @ ''...'']"
    using ws by (rule str_split_join_dots)
  moreover have "butlast ?ws = take (?n - 1) words"
    using n by (simp add: butlast_take)
  moreover have "last ?ws = words ! (?n - 1)"
    using n ws by (simp add: last_conv_nth min_def)
  ultimately show ?thesis
    using assms(2) by (simp add: slice_to_take)
qed

lemma word_count_truncated:
  assumes "list_all is_word words" and "1 \<le> word_limit" and "word_limit < int (length words)"
  shows "word_count (str_join '' '' (slice_to word_limit words) @ ''...'') = word_limit"
  using assms by (simp add: word_count_def str_split_truncated)

lemma word_count_fallback: "word_count ''Resumen no disponible'' = 3"
  by (simp add: word_count_def str_split_def isspace_def)

section \<open>Python values\<close>

text \<open>
  The exceptions of class \<open>Exception\<close>, the ones an \<open>except Exception\<close> clause catches.
  The first seven are raised by the interpreter and the standard library on the paths
  modelled here; \<open>Raised name\<close> is any exception a library raises.
\<close>

datatype py_exception =
  AttributeError | TypeError | KeyError | IndexError | FileNotFoundError | HTTPError
  | Raised string

text \<open>
  A value decoded by \<open>response.json()\<close>. A dict is an association list read with
  \<open>map_of\<close>; a number is modelled by an integer, zero being the falsy one.
\<close>

datatype json =
  JNull | JBool bool | JNum int | JStr string | JArr "json list" | JObj "(string \<times> json) list"

text \<open>Python truthiness, as \<open>not v\<close> tests it.\<close>

fun truthy :: "json \<Rightarrow> bool" where
  "truthy JNull = False"
| "truthy (JBool b) = b"
| "truthy (JNum n) = (n \<noteq> 0)"
| "truthy (JStr s) = (s \<noteq> [])"
| "truthy (JArr xs) = (xs \<noteq> [])"
| "truthy (JObj kvs) = (kvs \<noteq> [])"

text \<open>\<open>v.get(key, dflt)\<close>: only a dict has the method.\<close>

fun dict_get :: "json \<Rightarrow> string \<Rightarrow> json \<Rightarrow> py_exception + json" where
  "dict_get (JObj kvs) key dflt =
     Inr (case map_of kvs key of Some v \<Rightarrow> v | None \<Rightarrow> dflt)"
| "dict_get v key dflt = Inl AttributeError"

text \<open>\<open>v[key]\<close> for a string key, and \<open>v[0]\<close>.\<close>

fun getitem_key :: "json \<Rightarrow> string \<Rightarrow> py_exception + json" where
  "getitem_key (JObj kvs) key = (case map_of kvs key of Some v \<Rightarrow> Inr v | None \<Rightarrow> Inl KeyError)"
| "getitem_key (JArr xs) key = Inl TypeError"
| "getitem_key (JStr s) key = Inl TypeError"
| "getitem_key v key = Inl TypeError"

fun getitem_0 :: "json \<Rightarrow> py_exception + json" where
  "getitem_0 (JArr []) = Inl IndexError"
| "getitem_0 (JArr (x # xs)) = Inr x"
| "getitem_0 (JStr []) = Inl IndexError"
| "getitem_0 (JStr (c # cs)) = Inr (JStr [c])"
| "getitem_0 (JObj kvs) = Inl KeyError"
| "getitem_0 v = Inl TypeError"

text \<open>Sequencing of steps that may raise: the first exception ends the sequence.\<close>

fun and_then :: "py_exception + 'a \<Rightarrow> ('a \<Rightarrow> py_exception + 'b) \<Rightarrow> py_exception + 'b" where
  "and_then (Inl e) f = Inl e"
| "and_then (Inr a) f = f a"

section \<open>Records, log and external calls\<close>

text \<open>
  One row of the output: the dict appended at lines 183 to 191. The five fields read
  from the API hold whatever \<open>team_info.get\<close> returned.
\<close>

record team_record =
  Equipo :: json
  Deporte :: json
  Liga :: json
  Anio_de_fundacion :: json
  Estadio :: json
  Descripcion_es :: string
  Resumen :: string

text \<open>
  The two requests sent to \<open>ai_client.chat.completions.create\<close>, both to model
  \<open>gpt-3.5-turbo\<close>: the summary request of lines 77 to 93 (the text and the word limit
  in the prompt, 200 tokens, temperature 0.2) and the translation request of lines 124
  to 137 (400 tokens, temperature 0).
\<close>

datatype chat_request = Summary_request string int | Translate_request string

text \<open>
  Every \<open>print\<close> of the script, by the line that prints it. \<open>OpenAI_call_failed\<close>
  stands for both messages of lines 103 to 106, which differ in wording only.
\<close>

datatype message =
  TextRank_error py_exception
  | OpenAI_call_failed py_exception
  | Googletrans_failed py_exception
  | OpenAI_translate_failed py_exception
  | No_translation_available
  | No_data_for_team string
  | No_english_description json
  | Falling_back_to_TextRank json
  | Error_processing_team string py_exception
  | No_rows_to_save
  | Saved_CSV string nat
  | Error_saving_CSV py_exception

text \<open>What the script does to the outside, in the order it does it.\<close>

datatype event =
  Print message
  | Call_googletrans string string
  | Call_openai chat_request
  | Call_sumy string int
  | Call_requests_get string
  | Call_sleep real
  | Call_makedirs string
  | Call_to_csv string "team_record list"

text \<open>
  The state threaded through the script: the outside world \<open>'w\<close> (network, services,
  file system), which only the external calls read and change, and the trace of events.
\<close>

type_synonym 'w state = "'w \<times> event list"

definition emit :: "event \<Rightarrow> 'w state \<Rightarrow> 'w state" where
  "emit ev s = (fst s, snd s @ [ev])"

definition call :: "event \<Rightarrow> ('w \<Rightarrow> 'a \<times> 'w) \<Rightarrow> 'w state \<Rightarrow> 'a \<times> 'w state" where
  "call ev f s = (case f (fst s) of (r, w) \<Rightarrow> (r, (w, snd s @ [ev])))"

text \<open>An HTTP response: its status and what \<open>r.json()\<close> gives.\<close>

record response =
  status_code :: int
  json_result :: "py_exception + json"

text \<open>
  The capability flags computed at import time (lines 30 to 48) and the libraries the
  script calls. Each call answers from the world and may change it, so an answer may
  differ from one call to the next; each may raise.
  \<^item> \<open>googletrans text dest\<close>: \<open>Translator().translate(text, dest=dest).text\<close>;
  \<^item> \<open>openai_chat req\<close>: \<open>resp.choices[0].message.content\<close> of the completion, which
    may be \<open>None\<close>;
  \<^item> \<open>sumy_text_rank text n\<close>: the \<open>str\<close> of each sentence the TextRank summarizer
    selects from the text parsed with the Spanish tokenizer;
  \<^item> \<open>requote_uri\<close>, \<open>requests_get\<close> (timeout 10), \<open>time_sleep\<close>;
  \<^item> \<open>os_makedirs name\<close>: \<open>os.makedirs(name, exist_ok=True)\<close> for a non-empty name;
  \<^item> \<open>to_csv items path\<close>: the DataFrame built from the items and written to the path.
\<close>

record 'w backends =
  translator_available :: bool
  USE_OPENAI :: bool
  ai_client :: bool
  googletrans :: "string \<Rightarrow> string \<Rightarrow> 'w \<Rightarrow> (py_exception + string) \<times> 'w"
  openai_chat :: "chat_request \<Rightarrow> 'w \<Rightarrow> (py_exception + string option) \<times> 'w"
  sumy_text_rank :: "string \<Rightarrow> int \<Rightarrow> 'w \<Rightarrow> (py_exception + string list) \<times> 'w"
  requote_uri :: "string \<Rightarrow> string"
  requests_get :: "string \<Rightarrow> 'w \<Rightarrow> (py_exception + response) \<times> 'w"
  time_sleep :: "real \<Rightarrow> 'w \<Rightarrow> (py_exception + unit) \<times> 'w"
  os_makedirs :: "string \<Rightarrow> 'w \<Rightarrow> (py_exception + unit) \<times> 'w"
  to_csv :: "team_record list \<Rightarrow> string \<Rightarrow> 'w \<Rightarrow> (py_exception + unit) \<times> 'w"

section \<open>Summaries\<close>

text \<open>\<open>summarise_text_rank\<close>, lines 52 to 68.\<close>

definition summarise_text_rank ::
  "'w backends \<Rightarrow> string \<Rightarrow> int \<Rightarrow> int \<Rightarrow> 'w state \<Rightarrow> (py_exception + string) \<times> 'w state" where
  "summarise_text_rank B text sentences_count word_limit s =
     (if blank text then (Inr ''Resumen no disponible'', s)
      else
        (case call (Call_sumy text sentences_count) (sumy_text_rank B text sentences_count) s of
           (Inr summary_sentences, s1) \<Rightarrow>
             (let summary_text = str_strip (str_join '' '' summary_sentences);
                  words = str_split summary_text
              in if int (length words) > word_limit
                 then (Inr (str_join '' '' (slice_to word_limit words) @ ''...''), s1)
                 else (Inr summary_text, s1))
         | (Inl e, s1) \<Rightarrow> (Inr ''Resumen no disponible'', emit (Print (TextRank_error e)) s1)))"

text \<open>
  \<open>summarise_with_ai\<close>, lines 70 to 107. A completion whose content is \<open>None\<close> raises
  \<open>AttributeError\<close> at \<open>.strip()\<close>, inside the \<open>try\<close>.
\<close>

definition summarise_with_ai ::
  "'w backends \<Rightarrow> string \<Rightarrow> int \<Rightarrow> 'w state \<Rightarrow> (py_exception + string option) \<times> 'w state" where
  "summarise_with_ai B text word_limit s =
     (if \<not> USE_OPENAI B \<or> \<not> ai_client B then (Inr None, s)
      else if blank text then (Inr None, s)
      else
        (case call (Call_openai (Summary_request text word_limit))
                (openai_chat B (Summary_request text word_limit)) s of
           (Inr (Some content), s1) \<Rightarrow>
             (let summary = str_strip content;
                  words = str_split summary
              in (Inr (Some (if int (length words) > word_limit
                             then str_join '' '' (slice_to word_limit words) @ ''...''
                             else summary)), s1))
         | (Inr None, s1) \<Rightarrow> (Inr None, emit (Print (OpenAI_call_failed AttributeError)) s1)
         | (Inl e, s1) \<Rightarrow> (Inr None, emit (Print (OpenAI_call_failed e)) s1)))"

text \<open>
  The summarizer of the pipeline, lines 174 to 181 of \<open>process_teams\<close>: the AI summary
  when the AI is on and answers, the TextRank summary of four sentences otherwise. The
  word limit, the literal 50 in the source, is a parameter here; \<open>name\<close> is only logged.
\<close>

definition summarize ::
  "'w backends \<Rightarrow> string \<Rightarrow> int \<Rightarrow> json \<Rightarrow> 'w state \<Rightarrow> (py_exception + string) \<times> 'w state" where
  "summarize B text word_limit name s =
     (case (if USE_OPENAI B
            then (case summarise_with_ai B text word_limit s of
                    (Inr None, s1) \<Rightarrow> (Inr None, emit (Print (Falling_back_to_TextRank name)) s1)
                  | (r, s1) \<Rightarrow> (r, s1))
            else (Inr None, s)) of
        (Inr None, s1) \<Rightarrow> summarise_text_rank B text 4 word_limit s1
      | (Inr (Some resumen), s1) \<Rightarrow> (Inr resumen, s1)
      | (Inl e, s1) \<Rightarrow> (Inl e, s1))"

text \<open>
  Lines 62 to 65 and 96 to 99 as a relation: \<open>r\<close> is what the truncation step returns
  for the candidate text, cut when the candidate has more words than the limit.
\<close>

definition capped :: "string \<Rightarrow> int \<Rightarrow> string \<Rightarrow> bool" where
  "capped candidate word_limit r =
     (if word_limit < word_count candidate
      then r = str_join '' '' (slice_to word_limit (str_split candidate)) @ ''...''
      else r = candidate)"

text \<open>
  The specification's view of a cut string \<open>r\<close>: it splits into the first words of the
  candidate with the marker glued to the last kept word, \<open>word_limit\<close> tokens in all.
\<close>

definition cut_at_word_limit :: "string \<Rightarrow> int \<Rightarrow> string \<Rightarrow> bool" where
  "cut_at_word_limit candidate word_limit r =
     (str_split r = take (nat word_limit - 1) (str_split candidate)
                    @ [str_split candidate ! (nat word_limit - 1) @ ''...'']
      \<and> int (length (str_split r)) = word_limit
      \<and> suffix ''...'' (last (str_split r)))"

section \<open>Translation\<close>

text \<open>
  \<open>translate_text\<close>, lines 109 to 143, in its three parts: the googletrans attempt
  (lines 114 to 120), the OpenAI attempt (lines 122 to 140), each giving the translation
  or \<open>None\<close> when it is skipped or fails, and the function itself.
\<close>

definition translate_googletrans ::
  "'w backends \<Rightarrow> string \<Rightarrow> string \<Rightarrow> 'w state \<Rightarrow> string option \<times> 'w state" where
  "translate_googletrans B text dest s =
     (if translator_available B
      then (case call (Call_googletrans text dest) (googletrans B text dest) s of
              (Inr result_text, s1) \<Rightarrow> (Some result_text, s1)
            | (Inl e, s1) \<Rightarrow> (None, emit (Print (Googletrans_failed e)) s1))
      else (None, s))"

definition translate_openai ::
  "'w backends \<Rightarrow> string \<Rightarrow> 'w state \<Rightarrow> string option \<times> 'w state" where
  "translate_openai B text s =
     (if USE_OPENAI B \<and> ai_client B
      then (case call (Call_openai (Translate_request text))
                  (openai_chat B (Translate_request text)) s of
              (Inr (Some content), s1) \<Rightarrow> (Some (str_strip content), s1)
            | (Inr None, s1) \<Rightarrow> (None, emit (Print (OpenAI_translate_failed AttributeError)) s1)
            | (Inl e, s1) \<Rightarrow> (None, emit (Print (OpenAI_translate_failed e)) s1))
      else (None, s))"

definition translate_text ::
  "'w backends \<Rightarrow> string \<Rightarrow> string \<Rightarrow> 'w state \<Rightarrow> (py_exception + string) \<times> 'w state" where
  "translate_text B text dest s =
     (if text = [] then (Inr [], s)
      else
        (case translate_googletrans B text dest s of
           (Some translated, s1) \<Rightarrow> (Inr translated, s1)
         | (None, s1) \<Rightarrow>
             (case translate_openai B text s1 of
                (Some translated, s2) \<Rightarrow> (Inr translated, s2)
              | (None, s2) \<Rightarrow> (Inr text, emit (Print No_translation_available) s2))))"

text \<open>
  The two failed attempts, in a world \<open>w\<close>: the googletrans call raises;
  the OpenAI call raises or its answer has no content.
\<close>

definition googletrans_fails :: "'w backends \<Rightarrow> string \<Rightarrow> string \<Rightarrow> 'w \<Rightarrow> bool" where
  "googletrans_fails B text dest w =
     (case fst (googletrans B text dest w) of Inl e \<Rightarrow> True | Inr translated \<Rightarrow> False)"

definition openai_translate_fails :: "'w backends \<Rightarrow> string \<Rightarrow> 'w \<Rightarrow> bool" where
  "openai_translate_fails B text w =
     (case fst (openai_chat B (Translate_request text) w) of
        Inl e \<Rightarrow> True | Inr None \<Rightarrow> True | Inr (Some content) \<Rightarrow> False)"

section \<open>The pipeline\<close>

text \<open>
  Lines 151 to 154: the request, \<open>raise_for_status\<close> (which raises on a status from
  400 to 599) and the decoding of the body.
\<close>

definition fetch_team ::
  "'w backends \<Rightarrow> string \<Rightarrow> string \<Rightarrow> 'w state \<Rightarrow> (py_exception + json) \<times> 'w state" where
  "fetch_team B base_url team s =
     (let search_url = base_url @ ''/searchteams.php?t='' @ requote_uri B team
      in case call (Call_requests_get search_url) (requests_get B search_url) s of
           (Inl e, s1) \<Rightarrow> (Inl e, s1)
         | (Inr r, s1) \<Rightarrow>
             (if 400 \<le> status_code r \<and> status_code r < 600 then (Inl HTTPError, s1)
              else (json_result r, s1)))"

text \<open>
  Lines 155 to 168, which call nothing outside: the two skips, or the five fields and
  the English description, or the exception raised on a value of the wrong type.
\<close>

datatype extraction =
  No_data
  | No_description json
  | Extracted json json json json json string

definition extract_team :: "json \<Rightarrow> py_exception + extraction" where
  "extract_team data =
     (if \<not> truthy data then Inr No_data
      else and_then (dict_get data ''teams'' JNull) (\<lambda>teams.
        if \<not> truthy teams then Inr No_data
        else and_then (getitem_key data ''teams'') (\<lambda>teams.
          and_then (getitem_0 teams) (\<lambda>team_info.
          and_then (dict_get team_info ''strTeam'' (JStr ''N/A'')) (\<lambda>name.
          and_then (dict_get team_info ''strSport'' (JStr ''N/A'')) (\<lambda>sport.
          and_then (dict_get team_info ''strLeague'' (JStr ''N/A'')) (\<lambda>league.
          and_then (dict_get team_info ''intFormedYear'' (JStr ''N/A'')) (\<lambda>year.
          and_then (dict_get team_info ''strStadium'' (JStr ''N/A'')) (\<lambda>stadium.
          and_then (dict_get team_info ''strDescriptionEN'' JNull) (\<lambda>description_en.
            if \<not> truthy description_en then Inr (No_description name)
            else (case description_en of
                    JStr d \<Rightarrow>
                      (if str_strip d = [] then Inr (No_description name)
                       else Inr (Extracted name sport league year stadium d))
                  | _ \<Rightarrow> Inl AttributeError)))))))))))"

text \<open>
  The body of the \<open>try\<close> for one team, lines 151 to 193, on the list \<open>results\<close> built
  so far. It ends normally (also at a \<open>continue\<close>) or with the exception raised; the
  record is appended before the pause, so it stays in the list when the pause raises.
\<close>

definition process_team ::
  "'w backends \<Rightarrow> string \<Rightarrow> real \<Rightarrow> string \<Rightarrow> team_record list \<Rightarrow> 'w state
     \<Rightarrow> (py_exception + unit) \<times> team_record list \<times> 'w state" where
  "process_team B base_url delay_between_calls team results s =
     (case fetch_team B base_url team s of
        (Inl e, s1) \<Rightarrow> (Inl e, results, s1)
      | (Inr data, s1) \<Rightarrow>
          (case extract_team data of
             Inl e \<Rightarrow> (Inl e, results, s1)
           | Inr No_data \<Rightarrow> (Inr (), results, emit (Print (No_data_for_team team)) s1)
           | Inr (No_description name) \<Rightarrow>
               (Inr (), results, emit (Print (No_english_description name)) s1)
           | Inr (Extracted name sport league year stadium description_en) \<Rightarrow>
               (case translate_text B description_en ''es'' s1 of
                  (Inl e, s2) \<Rightarrow> (Inl e, results, s2)
                | (Inr description_es, s2) \<Rightarrow>
                    (case summarize B description_es 50 name s2 of
                       (Inl e, s3) \<Rightarrow> (Inl e, results, s3)
                     | (Inr resumen, s3) \<Rightarrow>
                         (let results1 = results @
                                [\<lparr>Equipo = name, Deporte = sport, Liga = league,
                                  Anio_de_fundacion = year, Estadio = stadium,
                                  Descripcion_es = description_es, Resumen = resumen\<rparr>]
                          in case call (Call_sleep delay_between_calls)
                                    (time_sleep B delay_between_calls) s3 of
                               (Inl e, s4) \<Rightarrow> (Inl e, results1, s4)
                             | (Inr u, s4) \<Rightarrow> (Inr (), results1, s4))))))"

text \<open>
  The \<open>for\<close> loop of lines 149 to 197: an exception of the body is caught, logged, and
  the loop goes on with the next name.
\<close>

fun process_teams_loop ::
  "'w backends \<Rightarrow> string \<Rightarrow> real \<Rightarrow> string list \<Rightarrow> team_record list \<Rightarrow> 'w state
     \<Rightarrow> (py_exception + team_record list) \<times> 'w state" where
  "process_teams_loop B base_url delay_between_calls [] results s = (Inr results, s)"
| "process_teams_loop B base_url delay_between_calls (team # teams) results s =
     (case process_team B base_url delay_between_calls team results s of
        (Inl e, results1, s1) \<Rightarrow>
          process_teams_loop B base_url delay_between_calls teams results1
            (emit (Print (Error_processing_team team e)) s1)
      | (Inr u, results1, s1) \<Rightarrow>
          process_teams_loop B base_url delay_between_calls teams results1 s1)"

text \<open>\<open>process_teams\<close>, lines 147 to 198.\<close>

definition process_teams ::
  "'w backends \<Rightarrow> string list \<Rightarrow> string \<Rightarrow> real \<Rightarrow> 'w state
     \<Rightarrow> (py_exception + team_record list) \<times> 'w state" where
  "process_teams B teams base_url delay_between_calls s =
     process_teams_loop B base_url delay_between_calls teams [] s"

text \<open>
  What the specification expects in a field of the record: the value the team object holds under
  the key, and the string \<open>N/A\<close> when the object has no such key.
\<close>

definition api_field :: "(string \<times> json) list \<Rightarrow> string \<Rightarrow> json" where
  "api_field team_info key = (case map_of team_info key of Some v \<Rightarrow> v | None \<Rightarrow> JStr ''N/A'')"

text \<open>
  A team is skipped, or fails, when the request raises, the status is an error, the body
  does not decode, or lines 155 to 168 find no team, no English description, or a value
  of the wrong type.
\<close>

definition team_skipped :: "'w backends \<Rightarrow> string \<Rightarrow> string \<Rightarrow> 'w state \<Rightarrow> bool" where
  "team_skipped B base_url team s =
     (case fetch_team B base_url team s of
        (Inl e, s1) \<Rightarrow> True
      | (Inr data, s1) \<Rightarrow>
          (case extract_team data of
             Inr (Extracted name sport league year stadium description_en) \<Rightarrow> False
           | _ \<Rightarrow> True))"

text \<open>
  One turn of the loop taken alone: the records it adds to an empty list, and the state
  it leaves, the message of line 196 included.
\<close>

definition team_step ::
  "'w backends \<Rightarrow> string \<Rightarrow> real \<Rightarrow> string \<Rightarrow> 'w state \<Rightarrow> team_record list \<times> 'w state" where
  "team_step B base_url delay team s =
     (case process_team B base_url delay team [] s of
        (Inl e, records, s1) \<Rightarrow> (records, emit (Print (Error_processing_team team e)) s1)
      | (Inr u, records, s1) \<Rightarrow> (records, s1))"

text \<open>
  The output as the specification describes it: going through the names in order, each name that
  is not skipped contributes its record, paired here with the name.
\<close>

fun processed_in_order ::
  "'w backends \<Rightarrow> string \<Rightarrow> real \<Rightarrow> string list \<Rightarrow> 'w state \<Rightarrow> (string \<times> team_record) list" where
  "processed_in_order B base_url delay [] s = []"
| "processed_in_order B base_url delay (team # teams) s =
     (case team_step B base_url delay team s of
        (records, s1) \<Rightarrow>
          (if team_skipped B base_url team s then [] else map (Pair team) records)
          @ processed_in_order B base_url delay teams s1)"




section \<open>Export\<close>

text \<open>\<open>os.path.dirname\<close> on a POSIX path.\<close>

definition dirname :: "string \<Rightarrow> string" where
  "dirname p =
     (let head = rev (dropWhile (\<lambda>c. c \<noteq> CHR ''/'') (rev p))
      in if head \<noteq> [] \<and> \<not> list_all (\<lambda>c. c = CHR ''/'') head
         then rev (dropWhile (\<lambda>c. c = CHR ''/'') (rev head))
         else head)"

text \<open>
  \<open>os.makedirs(name, exist_ok=True)\<close>: the empty name raises \<open>FileNotFoundError\<close>
  and creates nothing; any other name is for the file system to answer.
\<close>

definition makedirs :: "'w backends \<Rightarrow> string \<Rightarrow> 'w state \<Rightarrow> (py_exception + unit) \<times> 'w state" where
  "makedirs B name s =
     (if name = [] then (Inl FileNotFoundError, emit (Call_makedirs name) s)
      else call (Call_makedirs name) (os_makedirs B name) s)"

text \<open>\<open>save_to_csv\<close>, lines 200 to 210. Line 204 stands before the \<open>try\<close>.\<close>

definition save_to_csv ::
  "'w backends \<Rightarrow> team_record list \<Rightarrow> string \<Rightarrow> 'w state \<Rightarrow> (py_exception + unit) \<times> 'w state" where
  "save_to_csv B items path s =
     (if items = [] then (Inr (), emit (Print No_rows_to_save) s)
      else
        (case makedirs B (dirname path) s of
           (Inl e, s1) \<Rightarrow> (Inl e, s1)
         | (Inr u, s1) \<Rightarrow>
             (case call (Call_to_csv path items) (to_csv B items path) s1 of
                (Inr v, s2) \<Rightarrow> (Inr (), emit (Print (Saved_CSV path (length items))) s2)
              | (Inl e, s2) \<Rightarrow> (Inr (), emit (Print (Error_saving_CSV e)) s2))))"

section \<open>Two sets of backends for the concrete runs\<close>

text \<open>
  Services that answer (the translator prefixes the text, the AI always answers four
  words, TextRank selects the whole text, the API knows the team Arsenal only), and
  services that all raise. The world carries nothing in either.
\<close>

definition answering_backends :: "unit backends" where
  "answering_backends =
     \<lparr>translator_available = True, USE_OPENAI = True, ai_client = True,
      googletrans = (\<lambda>t dest w. (Inr (''es: '' @ t), w)),
      openai_chat = (\<lambda>req w. (Inr (Some ''uno dos tres cuatro''), w)),
      sumy_text_rank = (\<lambda>t n w. (Inr [t], w)),
      requote_uri = (\<lambda>t. t),
      requests_get = (\<lambda>url w.
        (Inr \<lparr>status_code = 200,
              json_result = Inr (if url = ''api/searchteams.php?t=Arsenal''
                then JObj [(''teams'', JArr [JObj [(''strTeam'', JStr ''Arsenal''),
                       (''strSport'', JStr ''Soccer''), (''intFormedYear'', JStr ''1886''),
                       (''strDescriptionEN'', JStr ''Arsenal is a club'')]])]
                else JObj [(''teams'', JNull)])\<rparr>, w)),
      time_sleep = (\<lambda>d w. (Inr (), w)),
      os_makedirs = (\<lambda>name w. (Inr (), w)),
      to_csv = (\<lambda>items path w. (Inr (), w))\<rparr>"

definition failing_backends :: "unit backends" where
  "failing_backends =
     \<lparr>translator_available = True, USE_OPENAI = True, ai_client = True,
      googletrans = (\<lambda>t dest w. (Inl (Raised ''ConnectError''), w)),
      openai_chat = (\<lambda>req w. (Inl (Raised ''RateLimitError''), w)),
      sumy_text_rank = (\<lambda>t n w. (Inl (Raised ''LookupError''), w)),
      requote_uri = (\<lambda>t. t),
      requests_get = (\<lambda>url w. (Inl (Raised ''ConnectionError''), w)),
      time_sleep = (\<lambda>d w. (Inr (), w)),
      os_makedirs = (\<lambda>name w. (Inl (Raised ''PermissionError''), w)),
      to_csv = (\<lambda>items path w. (Inl (Raised ''PermissionError''), w))\<rparr>"



section \<open>Properties of the summarizer\<close>

lemma capped_word_count:
  assumes "capped candidate word_limit r" and "1 \<le> word_limit"
  shows "word_count r \<le> word_limit"
proof (cases "word_limit < word_count candidate")
  case True
  then have "word_limit < int (length (str_split candidate))"
    by (simp add: word_count_def)
  with assms True show ?thesis
    by (simp add: capped_def word_count_truncated str_split_words)
next
  case False
  with assms show ?thesis by (simp add: capped_def)
qed

lemma capped_suffix:
  "capped candidate word_limit r \<Longrightarrow> word_limit < word_count candidate \<Longrightarrow> suffix ''...'' r"
  by (simp add: capped_def suffix_def)

lemma summarise_text_rank_shape:
  "\<exists>r s'. summarise_text_rank B text n word_limit s = (Inr r, s') \<and>
           (r = ''Resumen no disponible'' \<or> (\<exists>candidate. capped candidate word_limit r))"
proof (cases "blank text")
  case True
  then show ?thesis by (simp add: summarise_text_rank_def)
next
  case False
  obtain res s1 where c: "call (Call_sumy text n) (sumy_text_rank B text n) s = (res, s1)"
    by (cases "call (Call_sumy text n) (sumy_text_rank B text n) s")
  show ?thesis
  proof (cases res)
    case (Inl e)
    with False c show ?thesis by (simp add: summarise_text_rank_def)
  next
    case (Inr sentences)
    let ?cand = "str_strip (str_join '' '' sentences)"
    have "\<exists>r. summarise_text_rank B text n word_limit s = (Inr r, s1) \<and> capped ?cand word_limit r"
      using False c Inr by (simp add: summarise_text_rank_def capped_def word_count_def Let_def)
    then show ?thesis by blast
  qed
qed

lemma summarise_with_ai_shape:
  "\<exists>res s'. summarise_with_ai B text word_limit s = (Inr res, s') \<and>
     (case res of None \<Rightarrow> True | Some r \<Rightarrow> \<exists>candidate. capped candidate word_limit r)"
proof (cases "\<not> USE_OPENAI B \<or> \<not> ai_client B \<or> blank text")
  case True
  then show ?thesis by (auto simp add: summarise_with_ai_def)
next
  case False
  let ?req = "Summary_request text word_limit"
  obtain res s1 where c: "call (Call_openai ?req) (openai_chat B ?req) s = (res, s1)"
    by (cases "call (Call_openai ?req) (openai_chat B ?req) s")
  show ?thesis
  proof (cases res)
    case (Inl e)
    with False c show ?thesis by (simp add: summarise_with_ai_def)
  next
    case (Inr content)
    show ?thesis
    proof (cases content)
      case None
      with False c Inr show ?thesis by (simp add: summarise_with_ai_def)
    next
      case (Some answer)
      have "\<exists>r. summarise_with_ai B text word_limit s = (Inr (Some r), s1) \<and> capped (str_strip answer) word_limit r"
        using False c Inr Some by (simp add: summarise_with_ai_def capped_def word_count_def Let_def)
      then show ?thesis by force
    qed
  qed
qed

lemma summarize_shape:
  "\<exists>r s'. summarize B text word_limit name s = (Inr r, s') \<and>
           (r = ''Resumen no disponible'' \<or> (\<exists>candidate. capped candidate word_limit r))"
proof (cases "USE_OPENAI B")
  case False
  then have "summarize B text word_limit name s = summarise_text_rank B text 4 word_limit s"
    by (simp add: summarize_def)
  then show ?thesis using summarise_text_rank_shape [of B "text" 4 word_limit s] by simp
next
  case True
  obtain res s1 where ai: "summarise_with_ai B text word_limit s = (Inr res, s1)"
    and sh: "case res of None \<Rightarrow> True | Some r \<Rightarrow> \<exists>candidate. capped candidate word_limit r"
    using summarise_with_ai_shape [of B "text" word_limit s] by blast
  show ?thesis
  proof (cases res)
    case None
    with True ai have "summarize B text word_limit name s
        = summarise_text_rank B text 4 word_limit (emit (Print (Falling_back_to_TextRank name)) s1)"
      by (simp add: summarize_def)
    then show ?thesis
      using summarise_text_rank_shape
        [of B "text" 4 word_limit "emit (Print (Falling_back_to_TextRank name)) s1"] by simp
  next
    case (Some r)
    with True ai sh show ?thesis by (simp add: summarize_def)
  qed
qed

lemma str_strip_Nil: "str_strip [] = []"
  by (simp add: str_strip_def)

lemma summarise_text_rank_answer:
  assumes "\<not> blank text" and "sumy_text_rank B text n (fst s) = (Inr sentences, w)"
  shows "\<exists>r. summarise_text_rank B text n word_limit s = (Inr r, (w, snd s @ [Call_sumy text n]))
             \<and> capped (str_strip (str_join '' '' sentences)) word_limit r"
  using assms by (simp add: summarise_text_rank_def call_def capped_def word_count_def Let_def)

lemma summarise_with_ai_answer:
  assumes "USE_OPENAI B" and "ai_client B" and "\<not> blank text"
    and "openai_chat B (Summary_request text word_limit) (fst s) = (Inr (Some content), w)"
  shows "\<exists>r. summarise_with_ai B text word_limit s
               = (Inr (Some r), (w, snd s @ [Call_openai (Summary_request text word_limit)]))
             \<and> capped (str_strip content) word_limit r"
  using assms by (simp add: summarise_with_ai_def call_def capped_def word_count_def Let_def)

lemma summarize_ai_branch:
  assumes "USE_OPENAI B" and "ai_client B" and "\<not> blank text"
    and "openai_chat B (Summary_request text word_limit) (fst s) = (Inr (Some content), w)"
  shows "\<exists>r s'. summarize B text word_limit name s = (Inr r, s')
                \<and> capped (str_strip content) word_limit r"
proof -
  from summarise_with_ai_answer [OF assms]
  obtain r where "summarise_with_ai B text word_limit s
        = (Inr (Some r), (w, snd s @ [Call_openai (Summary_request text word_limit)]))"
    and "capped (str_strip content) word_limit r"
    by auto
  with assms(1) show ?thesis by (simp add: summarize_def)
qed

lemma summarize_without_ai:
  assumes "\<not> USE_OPENAI B \<or> \<not> ai_client B" and "\<not> blank text"
    and "sumy_text_rank B text 4 (fst s) = (Inr sentences, w)"
  shows "\<exists>r s'. summarize B text word_limit name s = (Inr r, s')
                \<and> capped (str_strip (str_join '' '' sentences)) word_limit r"
proof (cases "USE_OPENAI B")
  case False
  then have "summarize B text word_limit name s = summarise_text_rank B text 4 word_limit s"
    by (simp add: summarize_def)
  with summarise_text_rank_answer [OF assms(2,3), where word_limit = word_limit]
  show ?thesis by auto
next
  case True
  with assms(1) have "summarise_with_ai B text word_limit s = (Inr None, s)"
    by (simp add: summarise_with_ai_def)
  with True have run: "summarize B text word_limit name s
      = summarise_text_rank B text 4 word_limit (emit (Print (Falling_back_to_TextRank name)) s)"
    by (simp add: summarize_def)
  have "sumy_text_rank B text 4 (fst (emit (Print (Falling_back_to_TextRank name)) s))
        = (Inr sentences, w)"
    using assms(3) by (simp add: emit_def)
  from summarise_text_rank_answer [OF assms(2) this, where word_limit = word_limit] run
  show ?thesis by auto
qed

lemma summarize_after_ai_failure:
  assumes "USE_OPENAI B" and "ai_client B" and "\<not> blank text"
    and "openai_chat B (Summary_request text word_limit) (fst s) = (answer, w1)"
    and "answer = Inr None \<or> (\<exists>e. answer = Inl e)"
    and "sumy_text_rank B text 4 w1 = (Inr sentences, w)"
  shows "\<exists>r s'. summarize B text word_limit name s = (Inr r, s')
                \<and> capped (str_strip (str_join '' '' sentences)) word_limit r"
proof -
  obtain s1 where ai: "summarise_with_ai B text word_limit s = (Inr None, s1)"
    and w: "fst s1 = w1"
    using assms(1-5)
    by (auto simp add: summarise_with_ai_def call_def emit_def)
  from assms(1) ai have run: "summarize B text word_limit name s
      = summarise_text_rank B text 4 word_limit (emit (Print (Falling_back_to_TextRank name)) s1)"
    by (simp add: summarize_def)
  have "sumy_text_rank B text 4 (fst (emit (Print (Falling_back_to_TextRank name)) s1))
        = (Inr sentences, w)"
    using assms(6) w by (simp add: emit_def)
  from summarise_text_rank_answer [OF assms(3) this, where word_limit = word_limit] run
  show ?thesis by auto
qed

lemma summarize_capped_suffix:
  assumes "\<exists>r s'. summarize B text word_limit name s = (Inr r, s') \<and> capped candidate word_limit r"
  shows "\<exists>r s'. summarize B text word_limit name s = (Inr r, s')
           \<and> capped candidate word_limit r
           \<and> (word_limit < word_count candidate \<longrightarrow> suffix ''...'' r)"
proof -
  from assms obtain r s' where run: "summarize B text word_limit name s = (Inr r, s')"
    and cap: "capped candidate word_limit r"
    by auto
  have "word_limit < word_count candidate \<longrightarrow> suffix ''...'' r"
    using cap by (simp add: capped_suffix)
  with run cap show ?thesis
    by (intro exI [of _ r] exI [of _ s']) simp
qed

text \<open>
  Claim C1, as amended. For every text and word limit the summarizer returns a string:
  the fixed message \<open>Resumen no disponible\<close> or the capped form of a candidate text.
  For a word limit of at least 1 the string is the fixed message (three words) or has at
  most \<open>word_limit\<close> words, so for a limit of at least 3 the cap always holds. The
  candidate is the answer of the backend, in each branch: the stripped answer of the AI
  when the AI is on and answers; the stripped join of the TextRank sentences when the AI
  is off, and when the AI is on but raises or answers without content. In each branch the
  returned string is the capped form of that candidate, and whenever the candidate has
  more words than the limit, so that it is cut, the returned string ends with \<open>...\<close>.
\<close>

theorem summarize_word_cap:
  "(\<exists>r s'. summarize B text word_limit name s = (Inr r, s') \<and>
      (r = ''Resumen no disponible'' \<or> (\<exists>candidate. capped candidate word_limit r)) \<and>
      (1 \<le> word_limit \<longrightarrow> r = ''Resumen no disponible'' \<or> word_count r \<le> word_limit) \<and>
      (3 \<le> word_limit \<longrightarrow> word_count r \<le> word_limit))
   \<and> (USE_OPENAI B \<and> ai_client B \<and> \<not> blank text
        \<and> openai_chat B (Summary_request text word_limit) (fst s) = (Inr (Some content), w)
      \<longrightarrow> (\<exists>r s'. summarize B text word_limit name s = (Inr r, s')
            \<and> capped (str_strip content) word_limit r
            \<and> (word_limit < word_count (str_strip content) \<longrightarrow> suffix ''...'' r)))
   \<and> ((\<not> USE_OPENAI B \<or> \<not> ai_client B) \<and> \<not> blank text
        \<and> sumy_text_rank B text 4 (fst s) = (Inr sentences, w)
      \<longrightarrow> (\<exists>r s'. summarize B text word_limit name s = (Inr r, s')
            \<and> capped (str_strip (str_join '' '' sentences)) word_limit r
            \<and> (word_limit < word_count (str_strip (str_join '' '' sentences))
                 \<longrightarrow> suffix ''...'' r)))
   \<and> (USE_OPENAI B \<and> ai_client B \<and> \<not> blank text
        \<and> openai_chat B (Summary_request text word_limit) (fst s) = (answer, w1)
        \<and> (answer = Inr None \<or> (\<exists>e. answer = Inl e))
        \<and> sumy_text_rank B text 4 w1 = (Inr sentences, w)
      \<longrightarrow> (\<exists>r s'. summarize B text word_limit name s = (Inr r, s')
            \<and> capped (str_strip (str_join '' '' sentences)) word_limit r
            \<and> (word_limit < word_count (str_strip (str_join '' '' sentences))
                 \<longrightarrow> suffix ''...'' r)))"
proof (intro conjI impI)
  obtain r s' where run: "summarize B text word_limit name s = (Inr r, s')"
    and shape: "r = ''Resumen no disponible'' \<or> (\<exists>candidate. capped candidate word_limit r)"
    using summarize_shape [of B "text" word_limit name s] by auto
  have one: "1 \<le> word_limit \<longrightarrow> r = ''Resumen no disponible'' \<or> word_count r \<le> word_limit"
    using shape capped_word_count by blast
  have three: "3 \<le> word_limit \<longrightarrow> word_count r \<le> word_limit"
  proof
    assume limit: "3 \<le> word_limit"
    from shape show "word_count r \<le> word_limit"
    proof
      assume "r = ''Resumen no disponible''"
      with limit show ?thesis by (simp add: word_count_fallback)
    next
      assume "\<exists>candidate. capped candidate word_limit r"
      with limit show ?thesis using capped_word_count by force
    qed
  qed
  show "\<exists>r s'. summarize B text word_limit name s = (Inr r, s') \<and>
      (r = ''Resumen no disponible'' \<or> (\<exists>candidate. capped candidate word_limit r)) \<and>
      (1 \<le> word_limit \<longrightarrow> r = ''Resumen no disponible'' \<or> word_count r \<le> word_limit) \<and>
      (3 \<le> word_limit \<longrightarrow> word_count r \<le> word_limit)"
    by (rule exI [of _ r], rule exI [of _ s']) (intro conjI run shape one three)
next
  assume h: "USE_OPENAI B \<and> ai_client B \<and> \<not> blank text
        \<and> openai_chat B (Summary_request text word_limit) (fst s) = (Inr (Some content), w)"
  then have "\<exists>r s'. summarize B text word_limit name s = (Inr r, s')
                \<and> capped (str_strip content) word_limit r"
    by (elim conjE) (rule summarize_ai_branch)
  then show "\<exists>r s'. summarize B text word_limit name s = (Inr r, s')
            \<and> capped (str_strip content) word_limit r
            \<and> (word_limit < word_count (str_strip content) \<longrightarrow> suffix ''...'' r)"
    by (rule summarize_capped_suffix)
next
  assume h: "(\<not> USE_OPENAI B \<or> \<not> ai_client B) \<and> \<not> blank text
        \<and> sumy_text_rank B text 4 (fst s) = (Inr sentences, w)"
  then have "\<exists>r s'. summarize B text word_limit name s = (Inr r, s')
                \<and> capped (str_strip (str_join '' '' sentences)) word_limit r"
    by (elim conjE) (rule summarize_without_ai)
  then show "\<exists>r s'. summarize B text word_limit name s = (Inr r, s')
            \<and> capped (str_strip (str_join '' '' sentences)) word_limit r
            \<and> (word_limit < word_count (str_strip (str_join '' '' sentences))
                 \<longrightarrow> suffix ''...'' r)"
    by (rule summarize_capped_suffix)
next
  assume h: "USE_OPENAI B \<and> ai_client B \<and> \<not> blank text
        \<and> openai_chat B (Summary_request text word_limit) (fst s) = (answer, w1)
        \<and> (answer = Inr None \<or> (\<exists>e. answer = Inl e))
        \<and> sumy_text_rank B text 4 w1 = (Inr sentences, w)"
  then have "\<exists>r s'. summarize B text word_limit name s = (Inr r, s')
                \<and> capped (str_strip (str_join '' '' sentences)) word_limit r"
    by (elim conjE) (rule summarize_after_ai_failure)
  then show "\<exists>r s'. summarize B text word_limit name s = (Inr r, s')
            \<and> capped (str_strip (str_join '' '' sentences)) word_limit r
            \<and> (word_limit < word_count (str_strip (str_join '' '' sentences))
                 \<longrightarrow> suffix ''...'' r)"
    by (rule summarize_capped_suffix)
qed

lemmas summarizer_eval = summarize_def summarise_with_ai_def summarise_text_rank_def blank_def
  str_strip_def str_split_def isspace_def call_def emit_def slice_to_def word_count_def
  capped_def Let_def

theorem summarize_word_cap_witness:
  "summarize answering_backends ''hola mundo'' 3 JNull ((), [])
     = (Inr ''uno dos tres...'', ((), [Call_openai (Summary_request ''hola mundo'' 3)]))
   \<and> summarize (answering_backends\<lparr>USE_OPENAI := False\<rparr>) ''uno dos  tres cuatro '' 3 JNull ((), [])
     = (Inr ''uno dos tres...'', ((), [Call_sumy ''uno dos  tres cuatro '' 4]))
   \<and> summarize (failing_backends\<lparr>sumy_text_rank := (\<lambda>t n w. (Inr [t], w))\<rparr>)
        ''uno dos  tres cuatro '' 3 JNull ((), [])
     = (Inr ''uno dos tres...'',
        ((), [Call_openai (Summary_request ''uno dos  tres cuatro '' 3),
              Print (OpenAI_call_failed (Raised ''RateLimitError'')),
              Print (Falling_back_to_TextRank JNull),
              Call_sumy ''uno dos  tres cuatro '' 4]))
   \<and> capped ''uno dos tres cuatro'' 3 ''uno dos tres...''
   \<and> capped ''uno dos  tres cuatro'' 3 ''uno dos tres...''
   \<and> 3 < word_count ''uno dos tres cuatro''
   \<and> 3 < word_count ''uno dos  tres cuatro''
   \<and> word_count ''uno dos tres...'' \<le> 3
   \<and> suffix ''...'' ''uno dos tres...''"
proof -
  let ?off = "answering_backends\<lparr>USE_OPENAI := False\<rparr>"
  let ?down = "failing_backends\<lparr>sumy_text_rank := (\<lambda>t n w. (Inr [t], w))\<rparr>"
  have run_ai: "summarize answering_backends ''hola mundo'' 3 JNull ((), [])
     = (Inr ''uno dos tres...'', ((), [Call_openai (Summary_request ''hola mundo'' 3)]))"
    and run_off: "summarize ?off ''uno dos  tres cuatro '' 3 JNull ((), [])
     = (Inr ''uno dos tres...'', ((), [Call_sumy ''uno dos  tres cuatro '' 4]))"
    and run_down: "summarize ?down ''uno dos  tres cuatro '' 3 JNull ((), [])
     = (Inr ''uno dos tres...'',
        ((), [Call_openai (Summary_request ''uno dos  tres cuatro '' 3),
              Print (OpenAI_call_failed (Raised ''RateLimitError'')),
              Print (Falling_back_to_TextRank JNull),
              Call_sumy ''uno dos  tres cuatro '' 4]))"
    by (simp_all add: summarizer_eval answering_backends_def failing_backends_def)
  have strip: "str_strip ''uno dos tres cuatro'' = ''uno dos tres cuatro''"
    "str_strip (str_join '' '' [''uno dos  tres cuatro '']) = ''uno dos  tres cuatro''"
    and more: "3 < word_count ''uno dos tres cuatro''" "3 < word_count ''uno dos  tres cuatro''"
    by (simp_all add: summarizer_eval)
  have "\<exists>r s'. summarize answering_backends ''hola mundo'' 3 JNull ((), []) = (Inr r, s')
          \<and> capped (str_strip ''uno dos tres cuatro'') 3 r
          \<and> (3 < word_count (str_strip ''uno dos tres cuatro'') \<longrightarrow> suffix ''...'' r)"
    by (rule summarize_word_cap [THEN conjunct2, THEN conjunct1, rule_format, where w = "()"])
       (simp add: summarizer_eval answering_backends_def)
  with run_ai strip more have ai: "capped ''uno dos tres cuatro'' 3 ''uno dos tres...''"
    "suffix ''...'' ''uno dos tres...''"
    by simp_all
  have "\<exists>r s'. summarize ?off ''uno dos  tres cuatro '' 3 JNull ((), []) = (Inr r, s')
          \<and> capped (str_strip (str_join '' '' [''uno dos  tres cuatro ''])) 3 r
          \<and> (3 < word_count (str_strip (str_join '' '' [''uno dos  tres cuatro '']))
               \<longrightarrow> suffix ''...'' r)"
    by (rule summarize_word_cap
              [THEN conjunct2, THEN conjunct2, THEN conjunct1, rule_format, where w = "()"])
       (simp add: summarizer_eval answering_backends_def)
  with run_off strip more have off: "capped ''uno dos  tres cuatro'' 3 ''uno dos tres...''"
    by simp
  have "\<exists>r s'. summarize ?down ''uno dos  tres cuatro '' 3 JNull ((), []) = (Inr r, s')
          \<and> capped (str_strip (str_join '' '' [''uno dos  tres cuatro ''])) 3 r
          \<and> (3 < word_count (str_strip (str_join '' '' [''uno dos  tres cuatro '']))
               \<longrightarrow> suffix ''...'' r)"
    by (rule summarize_word_cap
              [THEN conjunct2, THEN conjunct2, THEN conjunct2, rule_format,
               where w = "()" and answer = "Inl (Raised ''RateLimitError'')"])
       (simp add: summarizer_eval failing_backends_def)
  from summarize_word_cap [of answering_backends "''hola mundo''" 3 JNull "((), [])",
         THEN conjunct1] run_ai
  have cap: "word_count ''uno dos tres...'' \<le> 3"
    by auto
  from run_ai run_off run_down ai off more cap show ?thesis by simp
qed

text \<open>
  The cap does not hold for every word limit: with limit 0 a candidate of two words is
  cut to \<open>...\<close>, which is one word; with limit 2 an empty text gives the fixed message
  of three words.
\<close>

theorem summarize_word_cap_counterexample:
  "summarize (answering_backends\<lparr>USE_OPENAI := False\<rparr>) ''hola mundo'' 0 JNull ((), [])
     = (Inr ''...'', ((), [Call_sumy ''hola mundo'' 4]))
   \<and> word_count ''...'' = 1
   \<and> summarize answering_backends [] 2 JNull ((), [])
     = (Inr ''Resumen no disponible'', ((), [Print (Falling_back_to_TextRank JNull)]))
   \<and> word_count ''Resumen no disponible'' = 3"
  by (simp add: summarizer_eval answering_backends_def)


section \<open>The shape of a truncated summary\<close>

lemma capped_cut:
  assumes "1 \<le> word_limit" and "word_limit < word_count candidate"
    and "capped candidate word_limit r"
  shows "cut_at_word_limit candidate word_limit r"
proof -
  let ?words = "str_split candidate"
  have len: "word_limit < int (length ?words)"
    using assms(2) by (simp add: word_count_def)
  have r: "r = str_join '' '' (slice_to word_limit ?words) @ ''...''"
    using assms(2,3) by (simp add: capped_def)
  have sp: "str_split r = take (nat word_limit - 1) ?words @ [?words ! (nat word_limit - 1) @ ''...'']"
    unfolding r using str_split_words assms(1) len by (rule str_split_truncated)
  have "int (length (str_split r)) = word_limit"
    using assms(1) len by (simp add: sp)
  moreover have "suffix ''...'' (last (str_split r))"
    by (simp add: sp suffix_def)
  ultimately show ?thesis
    using sp by (simp add: cut_at_word_limit_def)
qed

text \<open>
  Claim C10, as amended. For a word limit of at least 1, in both functions: when the
  candidate text (the stripped join of the selected sentences, the stripped answer of the
  AI) has more words than the limit, the returned string splits into the first
  \<open>word_limit - 1\<close> words of the candidate followed by its \<open>word_limit\<close>-th word with
  \<open>...\<close> appended directly: exactly \<open>word_limit\<close> tokens, the last ending with the
  marker.
\<close>

theorem truncation_keeps_word_limit_tokens:
  assumes "1 \<le> word_limit"
  shows "(\<not> blank text \<and> sumy_text_rank B text n (fst s) = (Inr sentences, w)
            \<and> word_limit < word_count (str_strip (str_join '' '' sentences))
          \<longrightarrow> (\<exists>r s'. summarise_text_rank B text n word_limit s = (Inr r, s')
                \<and> cut_at_word_limit (str_strip (str_join '' '' sentences)) word_limit r))
       \<and> (USE_OPENAI B \<and> ai_client B \<and> \<not> blank text
            \<and> openai_chat B (Summary_request text word_limit) (fst s) = (Inr (Some content), w)
            \<and> word_limit < word_count (str_strip content)
          \<longrightarrow> (\<exists>r s'. summarise_with_ai B text word_limit s = (Inr (Some r), s')
                \<and> cut_at_word_limit (str_strip content) word_limit r))"
proof (intro conjI impI)
  assume h: "\<not> blank text \<and> sumy_text_rank B text n (fst s) = (Inr sentences, w)
            \<and> word_limit < word_count (str_strip (str_join '' '' sentences))"
  then have a: "\<not> blank text" and b: "sumy_text_rank B text n (fst s) = (Inr sentences, w)"
    and c: "word_limit < word_count (str_strip (str_join '' '' sentences))"
    by simp_all
  from summarise_text_rank_answer [OF a b, where word_limit = word_limit]
  obtain r where run: "summarise_text_rank B text n word_limit s = (Inr r, (w, snd s @ [Call_sumy text n]))"
    and cap: "capped (str_strip (str_join '' '' sentences)) word_limit r"
    by auto
  from capped_cut [OF assms c cap] run
  show "\<exists>r s'. summarise_text_rank B text n word_limit s = (Inr r, s')
                \<and> cut_at_word_limit (str_strip (str_join '' '' sentences)) word_limit r"
    by auto
next
  assume h: "USE_OPENAI B \<and> ai_client B \<and> \<not> blank text
            \<and> openai_chat B (Summary_request text word_limit) (fst s) = (Inr (Some content), w)
            \<and> word_limit < word_count (str_strip content)"
  then have a: "USE_OPENAI B" "ai_client B" "\<not> blank text"
    "openai_chat B (Summary_request text word_limit) (fst s) = (Inr (Some content), w)"
    and c: "word_limit < word_count (str_strip content)"
    by simp_all
  from summarise_with_ai_answer [OF a]
  obtain r where run: "summarise_with_ai B text word_limit s
               = (Inr (Some r), (w, snd s @ [Call_openai (Summary_request text word_limit)]))"
    and cap: "capped (str_strip content) word_limit r"
    by auto
  from capped_cut [OF assms c cap] run
  show "\<exists>r s'. summarise_with_ai B text word_limit s = (Inr (Some r), s')
                \<and> cut_at_word_limit (str_strip content) word_limit r"
    by auto
qed

theorem truncation_keeps_word_limit_tokens_witness:
  "summarise_text_rank answering_backends ''uno dos  tres cuatro '' 4 2 ((), [])
     = (Inr ''uno dos...'', ((), [Call_sumy ''uno dos  tres cuatro '' 4]))
   \<and> str_split ''uno dos...'' = [''uno'', ''dos...'']
   \<and> cut_at_word_limit ''uno dos  tres cuatro'' 2 ''uno dos...''
   \<and> summarise_with_ai answering_backends ''hola mundo'' 3 ((), [])
     = (Inr (Some ''uno dos tres...''), ((), [Call_openai (Summary_request ''hola mundo'' 3)]))
   \<and> cut_at_word_limit ''uno dos tres cuatro'' 3 ''uno dos tres...''"
proof -
  have tr: "summarise_text_rank answering_backends ''uno dos  tres cuatro '' 4 2 ((), [])
     = (Inr ''uno dos...'', ((), [Call_sumy ''uno dos  tres cuatro '' 4]))"
    and ai: "summarise_with_ai answering_backends ''hola mundo'' 3 ((), [])
     = (Inr (Some ''uno dos tres...''), ((), [Call_openai (Summary_request ''hola mundo'' 3)]))"
    and sp: "str_split ''uno dos...'' = [''uno'', ''dos...'']"
    by (simp_all add: summarizer_eval answering_backends_def)
  have strip: "str_strip (str_join '' '' [''uno dos  tres cuatro '']) = ''uno dos  tres cuatro''"
    "str_strip ''uno dos tres cuatro'' = ''uno dos tres cuatro''"
    by (simp_all add: summarizer_eval)
  have two: "(1::int) \<le> 2" and three: "(1::int) \<le> 3" by simp_all
  have "\<exists>r s'. summarise_text_rank answering_backends ''uno dos  tres cuatro '' 4 2 ((), [])
                 = (Inr r, s')
          \<and> cut_at_word_limit (str_strip (str_join '' '' [''uno dos  tres cuatro ''])) 2 r"
    by (rule truncation_keeps_word_limit_tokens [OF two, THEN conjunct1, rule_format, where w = "()"])
       (simp add: summarizer_eval answering_backends_def)
  with tr strip have c1: "cut_at_word_limit ''uno dos  tres cuatro'' 2 ''uno dos...''"
    by simp
  have "\<exists>r s'. summarise_with_ai answering_backends ''hola mundo'' 3 ((), []) = (Inr (Some r), s')
          \<and> cut_at_word_limit (str_strip ''uno dos tres cuatro'') 3 r"
    by (rule truncation_keeps_word_limit_tokens [OF three, THEN conjunct2, rule_format, where w = "()"])
       (simp add: summarizer_eval answering_backends_def)
  with ai strip have c2: "cut_at_word_limit ''uno dos tres cuatro'' 3 ''uno dos tres...''"
    by simp
  from tr ai sp c1 c2 show ?thesis by simp
qed

text \<open>
  With word limit 0 the two-word candidate is cut, and the returned string \<open>...\<close>
  splits into one token, not zero.
\<close>

theorem truncation_keeps_word_limit_tokens_counterexample:
  "summarise_text_rank answering_backends ''hola mundo'' 4 0 ((), [])
     = (Inr ''...'', ((), [Call_sumy ''hola mundo'' 4]))
   \<and> word_count ''hola mundo'' = 2
   \<and> str_split ''...'' = [''...'']
   \<and> int (length (str_split ''...'')) = 1"
  by (simp add: summarizer_eval answering_backends_def)


section \<open>Properties of the translator\<close>

lemma translate_googletrans_None:
  assumes "\<not> translator_available B \<or> googletrans_fails B text dest (fst s)"
  shows "fst (translate_googletrans B text dest s) = None"
  using assms
  by (auto simp add: translate_googletrans_def googletrans_fails_def call_def
           split: prod.splits sum.splits)

lemma translate_openai_None:
  assumes "\<not> (USE_OPENAI B \<and> ai_client B) \<or> openai_translate_fails B text (fst s)"
  shows "fst (translate_openai B text s) = None"
  using assms
  by (auto simp add: translate_openai_def openai_translate_fails_def call_def
           split: prod.splits sum.splits option.splits)

lemma translate_text_returns: "\<exists>r s'. translate_text B text dest s = (Inr r, s')"
  by (simp add: translate_text_def split: prod.splits option.splits)

text \<open>
  Claim C6. For a non-empty text, when googletrans is unavailable or its call raises, and
  the AI is not configured or its call fails (it raises, or answers without content) in
  the world the first attempt leaves, \<open>translate_text\<close> returns the text it was given.
\<close>

theorem translate_text_identity:
  assumes "text \<noteq> []"
    and "\<not> translator_available B \<or> googletrans_fails B text dest (fst s)"
    and "\<not> (USE_OPENAI B \<and> ai_client B)
         \<or> openai_translate_fails B text (fst (snd (translate_googletrans B text dest s)))"
  shows "fst (translate_text B text dest s) = Inr text"
proof -
  obtain g s1 where g: "translate_googletrans B text dest s = (g, s1)"
    by (cases "translate_googletrans B text dest s")
  with assms(2) have gn: "g = None"
    using translate_googletrans_None [of B "text" dest s] by simp
  obtain a s2 where a: "translate_openai B text s1 = (a, s2)"
    by (cases "translate_openai B text s1")
  with assms(3) g have an: "a = None"
    using translate_openai_None [of B "text" s1] by simp
  from assms(1) g gn a an show ?thesis
    by (simp add: translate_text_def)
qed

lemmas translator_eval = translate_text_def translate_googletrans_def translate_openai_def
  googletrans_fails_def openai_translate_fails_def call_def emit_def str_strip_def isspace_def

theorem translate_text_identity_witness:
  "fst (translate_text failing_backends ''hello'' ''es'' ((), [])) = Inr ''hello''
   \<and> googletrans_fails failing_backends ''hello'' ''es'' ()
   \<and> openai_translate_fails failing_backends ''hello'' ()"
proof -
  have g: "googletrans_fails failing_backends ''hello'' ''es'' ()"
    and a: "openai_translate_fails failing_backends ''hello'' ()"
    by (simp_all add: translator_eval failing_backends_def)
  have "fst (translate_text failing_backends ''hello'' ''es'' ((), [])) = Inr ''hello''"
    by (rule translate_text_identity) (simp_all add: g a)
  with g a show ?thesis by simp
qed

text \<open>
  Claim C3, as amended. On the empty string \<open>translate_text\<close> returns the empty
  string and leaves the world and the trace as they were: no backend is called.
\<close>

theorem translate_text_empty: "translate_text B [] dest s = (Inr [], s)"
  by (simp add: translate_text_def)

text \<open>
  A string of one space is blank but not empty, so the guard of line 111 lets it
  through: googletrans is called with it and its answer is returned; with no backend the
  space itself is returned, not the empty string.
\<close>

theorem translate_text_blank_counterexample:
  "blank '' '' \<and>
   translate_text answering_backends '' '' ''es'' ((), [])
     = (Inr ''es:  '', ((), [Call_googletrans '' '' ''es'']))
   \<and> translate_text (failing_backends\<lparr>translator_available := False, USE_OPENAI := False\<rparr>)
        '' '' ''es'' ((), [])
     = (Inr '' '', ((), [Print No_translation_available]))"
  by (simp add: translator_eval blank_def answering_backends_def failing_backends_def)

text \<open>
  Claim C8. Whatever the backends do, \<open>translate_text\<close>, the summarizer of the
  pipeline and its two functions return a value and raise nothing.
\<close>

theorem translator_and_summarizer_return:
  "(\<exists>r s'. translate_text B text dest s = (Inr r, s'))
   \<and> (\<exists>r s'. summarize B text word_limit name s = (Inr r, s'))
   \<and> (\<exists>r s'. summarise_text_rank B text sentences_count word_limit s = (Inr r, s'))
   \<and> (\<exists>r s'. summarise_with_ai B text word_limit s = (Inr r, s'))"
proof (intro conjI)
  show "\<exists>r s'. translate_text B text dest s = (Inr r, s')"
    by (rule translate_text_returns)
  show "\<exists>r s'. summarize B text word_limit name s = (Inr r, s')"
    using summarize_shape [of B "text" word_limit name s] by blast
  show "\<exists>r s'. summarise_text_rank B text sentences_count word_limit s = (Inr r, s')"
    using summarise_text_rank_shape [of B "text" sentences_count word_limit s] by blast
  show "\<exists>r s'. summarise_with_ai B text word_limit s = (Inr r, s')"
    using summarise_with_ai_shape [of B "text" word_limit s] by blast
qed

theorem translator_and_summarizer_return_witness:
  "fst (translate_text failing_backends ''hello'' ''es'' ((), [])) = Inr ''hello''
   \<and> fst (summarize failing_backends ''hola mundo'' 50 JNull ((), [])) = Inr ''Resumen no disponible''
   \<and> fst (summarise_text_rank failing_backends ''hola mundo'' 4 50 ((), [])) = Inr ''Resumen no disponible''
   \<and> fst (summarise_with_ai failing_backends ''hola mundo'' 50 ((), [])) = Inr None"
  using translator_and_summarizer_return
    [of failing_backends "''hello''" "''es''" "((), [])" 50 JNull 4]
  by (simp add: translator_eval summarizer_eval failing_backends_def)

section \<open>Properties of the export\<close>

text \<open>
  Claim C9. With no records \<open>save_to_csv\<close> logs that there is nothing to save and
  does nothing else: the world is unchanged and the trace gains that one message, so
  neither \<open>os.makedirs\<close> nor the writer is called.
\<close>

theorem save_to_csv_empty:
  "save_to_csv B [] path s = (Inr (), (fst s, snd s @ [Print No_rows_to_save]))"
  by (simp add: save_to_csv_def emit_def)

lemma save_to_csv_makedirs_raises:
  assumes "items \<noteq> []" and "makedirs B (dirname path) s = (Inl e, s1)"
  shows "save_to_csv B items path s = (Inl e, s1)"
  using assms by (simp add: save_to_csv_def)

lemma save_to_csv_write_caught:
  assumes "items \<noteq> []" and "makedirs B (dirname path) s = (Inr u, s1)"
  shows "\<exists>s2. save_to_csv B items path s = (Inr (), s2)"
  using assms by (simp add: save_to_csv_def split: prod.splits sum.splits)

lemma dirname_bare: "dirname ''teams_list.csv'' = []"
  by (simp add: dirname_def)

text \<open>
  Claim C2 fails on the code. \<open>os.makedirs\<close> is called before the \<open>try\<close>, so its
  exception leaves \<open>save_to_csv\<close>: for a path with no directory part the parent is the
  empty name, which \<open>os.makedirs\<close> refuses, and for \<open>data/teams_list.csv\<close> a file
  system that refuses to create \<open>data\<close> has the same effect. Nothing is logged.
\<close>

theorem save_to_csv_raises:
  "save_to_csv B (r # rs) ''teams_list.csv'' s
     = (Inl FileNotFoundError, (fst s, snd s @ [Call_makedirs []]))
   \<and> save_to_csv failing_backends (r # rs) ''data/teams_list.csv'' ((), [])
     = (Inl (Raised ''PermissionError''), ((), [Call_makedirs ''data'']))"
  by (simp add: save_to_csv_def makedirs_def dirname_def emit_def call_def failing_backends_def)


section \<open>Properties of the pipeline\<close>


lemma process_team_extracted:
  assumes "fetch_team B base_url team s = (Inr data, s1)"
    and "extract_team data = Inr (Extracted name sport league year stadium description_en)"
  shows "\<exists>outcome description_es resumen s'.
           process_team B base_url delay team results s
             = (outcome, results @ [\<lparr>Equipo = name, Deporte = sport, Liga = league,
                  Anio_de_fundacion = year, Estadio = stadium,
                  Descripcion_es = description_es, Resumen = resumen\<rparr>], s')"
proof -
  obtain description_es s2 where t: "translate_text B description_en ''es'' s1 = (Inr description_es, s2)"
    using translate_text_returns by blast
  obtain resumen s3 where r: "summarize B description_es 50 name s2 = (Inr resumen, s3)"
    using summarize_shape by blast
  obtain z s4 where c: "call (Call_sleep delay) (time_sleep B delay) s3 = (z, s4)"
    by (cases "call (Call_sleep delay) (time_sleep B delay) s3")
  show ?thesis
    using assms t r c by (cases z) (simp_all add: process_team_def Let_def)
qed

lemma process_team_skipped:
  assumes "team_skipped B base_url team s"
  shows "\<exists>outcome s'. process_team B base_url delay team results s = (outcome, results, s')"
  using assms
  by (auto simp add: team_skipped_def process_team_def
           split: prod.splits sum.splits extraction.splits)

lemma not_skipped_extracted:
  assumes "\<not> team_skipped B base_url team s"
  shows "\<exists>data s1 name sport league year stadium description_en.
           fetch_team B base_url team s = (Inr data, s1)
           \<and> extract_team data = Inr (Extracted name sport league year stadium description_en)"
  using assms
  by (auto simp add: team_skipped_def split: prod.splits sum.splits extraction.splits)

lemma process_team_results:
  "\<exists>outcome records s'.
     process_team B base_url delay team results s = (outcome, results @ records, s')
     \<and> (team_skipped B base_url team s \<longrightarrow> records = [])
     \<and> (\<not> team_skipped B base_url team s \<longrightarrow> (\<exists>rec. records = [rec]))"
proof (cases "team_skipped B base_url team s")
  case True
  then show ?thesis using process_team_skipped [of B base_url team s delay results] by auto
next
  case False
  then obtain data s1 name sport league year stadium description_en
    where "fetch_team B base_url team s = (Inr data, s1)"
      and "extract_team data = Inr (Extracted name sport league year stadium description_en)"
    using not_skipped_extracted by blast
  from process_team_extracted [OF this, of delay results] False show ?thesis by auto
qed

lemma process_team_from_empty:
  assumes "process_team B base_url delay team [] s = (outcome, records, s')"
  shows "process_team B base_url delay team results s = (outcome, results @ records, s')"
  using assms
  by (auto simp add: process_team_def Let_def
           split: prod.splits sum.splits extraction.splits)

lemma loop_step:
  "\<exists>records s1.
     process_teams_loop B base_url delay (team # rest) results s
       = process_teams_loop B base_url delay rest (results @ records) s1
     \<and> team_step B base_url delay team s = (records, s1)
     \<and> (team_skipped B base_url team s \<longrightarrow> records = [])
     \<and> (\<not> team_skipped B base_url team s \<longrightarrow> (\<exists>rec. records = [rec]))"
proof -
  obtain outcome records s' where
    e: "process_team B base_url delay team [] s = (outcome, [] @ records, s')"
    and k: "team_skipped B base_url team s \<longrightarrow> records = []"
      "\<not> team_skipped B base_url team s \<longrightarrow> (\<exists>rec. records = [rec])"
    using process_team_results [of B base_url delay team "[]" s] by blast
  from e have r: "process_team B base_url delay team results s = (outcome, results @ records, s')"
    using process_team_from_empty by fastforce
  show ?thesis
    using e r k by (cases outcome; cases s') (simp_all add: team_step_def emit_def)
qed


lemma loop_processed_in_order:
  "fst (process_teams_loop B base_url delay teams results s)
     = Inr (results @ map snd (processed_in_order B base_url delay teams s))"
proof (induction teams arbitrary: results s)
  case Nil
  show ?case by simp
next
  case (Cons team rest)
  obtain records s1 where
    step: "process_teams_loop B base_url delay (team # rest) results s
       = process_teams_loop B base_url delay rest (results @ records) s1"
    and ts: "team_step B base_url delay team s = (records, s1)"
    and sk: "team_skipped B base_url team s \<longrightarrow> records = []"
    using loop_step by blast
  have "map snd (processed_in_order B base_url delay (team # rest) s)
        = records @ map snd (processed_in_order B base_url delay rest s1)"
    using ts sk by (simp add: comp_def)
  with step Cons.IH [of "results @ records" s1] show ?case by simp
qed

lemma processed_in_order_subseq:
  "subseq (map fst (processed_in_order B base_url delay teams s)) teams"
proof (induction teams arbitrary: s)
  case Nil
  show ?case by simp
next
  case (Cons team rest)
  obtain records s1 where
    ts: "team_step B base_url delay team s = (records, s1)"
    and sk: "\<not> team_skipped B base_url team s \<longrightarrow> (\<exists>rec. records = [rec])"
    using loop_step by blast
  show ?case
  proof (cases "team_skipped B base_url team s")
    case True
    from Cons.IH [of s1]
    have "subseq (map fst (processed_in_order B base_url delay rest s1)) (team # rest)"
      by (rule list_emb_Cons)
    with ts True show ?thesis by simp
  next
    case False
    with sk obtain rec where "records = [rec]" by blast
    with ts False Cons.IH [of s1] show ?thesis by simp
  qed
qed



lemmas pipeline_eval = process_teams_def process_team_def fetch_team_def extract_team_def
  team_skipped_def team_step_def api_field_def
  translate_text_def translate_googletrans_def translate_openai_def
  summarize_def summarise_with_ai_def summarise_text_rank_def blank_def
  str_strip_def str_split_def isspace_def call_def emit_def slice_to_def Let_def

text \<open>
  Claim C7. The list \<open>process_teams\<close> returns is the list of the records of the teams
  that were not skipped, in the order of the input, and the names they belong to form a
  subsequence of the input list.
\<close>

theorem process_teams_order:
  "fst (process_teams B teams base_url delay s)
     = Inr (map snd (processed_in_order B base_url delay teams s))
   \<and> subseq (map fst (processed_in_order B base_url delay teams s)) teams"
  using loop_processed_in_order [of B base_url delay teams "[]" s]
  by (simp add: process_teams_def processed_in_order_subseq)

theorem process_teams_order_witness:
  "map fst (processed_in_order answering_backends ''api'' (1/2)
              [''Arsenal'', ''Nowhere'', ''Arsenal''] ((), []))
     = [''Arsenal'', ''Arsenal'']
   \<and> subseq [''Arsenal'', ''Arsenal''] [''Arsenal'', ''Nowhere'', ''Arsenal'']
   \<and> fst (process_teams answering_backends [''Arsenal'', ''Nowhere'', ''Arsenal''] ''api''
            (1/2) ((), []))
     = Inr (map snd (processed_in_order answering_backends ''api'' (1/2)
                       [''Arsenal'', ''Nowhere'', ''Arsenal''] ((), [])))"
proof -
  have names: "map fst (processed_in_order answering_backends ''api'' (1/2)
              [''Arsenal'', ''Nowhere'', ''Arsenal''] ((), []))
     = [''Arsenal'', ''Arsenal'']"
    by (simp add: pipeline_eval answering_backends_def)
  from process_teams_order
    [of answering_backends "[''Arsenal'', ''Nowhere'', ''Arsenal'']" "''api''" "1/2" "((), [])"]
    names
  show ?thesis by simp
qed












end
